theory Spec2Isabelle
  imports Complex_Main "HOL-Library.Word"
begin

unbundle bit_operations_syntax

type_synonym f64 = "64 word"

definition MASK :: "64 word" where "MASK = 0x8000000000000000"
definition SENT :: "64 word" where "SENT = 0xFFFFFFFFFFFFFFF8"
definition K_NEGINF :: "64 word" where "K_NEGINF = SENT + 0"
definition K_POSINF :: "64 word" where "K_POSINF = SENT + 1"
definition K_NEG0 :: "64 word" where "K_NEG0 = SENT + 2"
definition K_POS0 :: "64 word" where "K_POS0 = SENT + 3"
definition K_NAN :: "64 word" where "K_NAN = SENT + 4"

definition np_signbit :: "f64 \<Rightarrow> bool" where
  "np_signbit a = bit a 63"
definition expo :: "f64 \<Rightarrow> nat" where
  "expo a = (unat a div 2 ^ 52) mod 2 ^ 11"
definition frac :: "f64 \<Rightarrow> nat" where
  "frac a = unat a mod 2 ^ 52"
definition np_isnan :: "f64 \<Rightarrow> bool" where
  "np_isnan a = (expo a = 2047 \<and> frac a \<noteq> 0)"
definition np_isinf :: "f64 \<Rightarrow> bool" where
  "np_isinf a = (expo a = 2047 \<and> frac a = 0)"
definition np_isposinf :: "f64 \<Rightarrow> bool" where
  "np_isposinf a = (np_isinf a \<and> \<not> np_signbit a)"
definition np_isneginf :: "f64 \<Rightarrow> bool" where
  "np_isneginf a = (np_isinf a \<and> np_signbit a)"
definition np_isfinite :: "f64 \<Rightarrow> bool" where
  "np_isfinite a = (\<not> (np_isnan a \<or> np_isinf a))"
definition eq_zero :: "f64 \<Rightarrow> bool" where
  "eq_zero a = (expo a = 0 \<and> frac a = 0)"

definition f64_mag :: "f64 \<Rightarrow> nat" where
  "f64_mag a = (if expo a = 0 then frac a else (2 ^ 52 + frac a) * 2 ^ (expo a - 1))"
definition f64_scaled :: "f64 \<Rightarrow> int" where
  "f64_scaled a = (if np_signbit a then - int (f64_mag a) else int (f64_mag a))"
definition f64_val :: "f64 \<Rightarrow> real" where
  "f64_val a = of_int (f64_scaled a) / 2 ^ 1074"

definition ieee_key1 :: "f64 \<Rightarrow> 64 word" where
  "ieee_key1 a =
    (let bits = a;
         key = (if bits AND MASK \<noteq> 0 then NOT bits else bits OR MASK);
         key = (if np_isneginf a then K_NEGINF else key);
         key = (if np_isposinf a then K_POSINF else key);
         z = eq_zero a;
         key = (if z \<and> np_signbit a then K_NEG0 else key);
         key = (if z \<and> \<not> np_signbit a then K_POS0 else key);
         key = (if np_isnan a then K_NAN else key)
     in key)"

definition ieee_key :: "f64 list \<Rightarrow> 64 word list" where
  "ieee_key a = map ieee_key1 a"

lemma unat_lt64: "unat (a::64 word) < 18446744073709551616"
  using unsigned_less[of a, where 'a=nat] by simp

lemma MASK_exp: "MASK = 2 ^ 63"
  by (simp add: MASK_def)

lemma div63: "(n::nat) < 18446744073709551616 \<Longrightarrow> odd (n div 2 ^ 63) = (9223372036854775808 \<le> n)"
proof -
  assume a: "n < 18446744073709551616"
  have "n div 2 ^ 63 < 2"
    using a by (intro less_mult_imp_div_less) simp
  then have "n div 2 ^ 63 = 0 \<or> n div 2 ^ 63 = 1" by linarith
  moreover have "(n div 2 ^ 63 = 0) = (n < 2 ^ 63)"
    by (simp only: div_eq_0_iff) simp
  ultimately show ?thesis by auto
qed

lemma nat_decomp:
  assumes "(n::nat) < 18446744073709551616"
  shows "n = (if 9223372036854775808 \<le> n then 9223372036854775808 else 0)
           + (n div 2 ^ 52) mod 2 ^ 11 * 2 ^ 52 + n mod 2 ^ 52"
proof -
  define q where "q = n div 2 ^ 52"
  have n: "n = q * 2 ^ 52 + n mod 2 ^ 52"
    by (simp add: q_def)
  have q: "q = (q div 2 ^ 11) * 2 ^ 11 + q mod 2 ^ 11"
    by simp
  have qq: "q div 2 ^ 11 = n div 2 ^ 63"
    unfolding q_def by (simp only: div_mult2_eq[symmetric]) simp
  have "n div 2 ^ 63 < 2"
    using assms by (intro less_mult_imp_div_less) simp
  moreover have "(n div 2 ^ 63 = 0) = (n < 2 ^ 63)"
    by (simp only: div_eq_0_iff) simp
  ultimately have h: "n div 2 ^ 63 = (if 9223372036854775808 \<le> n then 1 else 0)"
    by (auto simp: not_le)
  have "n = ((n div 2 ^ 63) * 2 ^ 11 + q mod 2 ^ 11) * 2 ^ 52 + n mod 2 ^ 52"
    using n q qq by metis
  then show ?thesis unfolding h q_def by (simp add: algebra_simps split: if_splits)
qed

lemma bit63_iff: "bit (a::64 word) 63 = (9223372036854775808 \<le> unat a)"
proof -
  have "bit a 63 = bit (unat a) 63"
    by (simp add: bit_unsigned_iff)
  also have "\<dots> = odd (unat a div 2 ^ 63)"
    by (simp only: bit_iff_odd)
  also have "odd (unat a div 2 ^ 63) = (9223372036854775808 \<le> unat a)"
    using unat_lt64[of a] by (rule div63)
  finally show ?thesis .
qed

lemma and_mask_iff: "((a::64 word) AND MASK \<noteq> 0) = (9223372036854775808 \<le> unat a)"
  unfolding MASK_exp by (simp only: and_exp_eq_0_iff_not_bit bit63_iff not_not)

lemma unat_not: "unat (NOT (a::64 word)) = 18446744073709551615 - unat a"
proof -
  have "NOT a = - 1 - a" by (simp add: not_eq_complement)
  moreover have "unat (- 1 - a) = unat (- 1 :: 64 word) - unat a"
    by (intro unat_sub) simp
  ultimately show ?thesis
    by (simp add: unsigned_minus_1_eq_mask mask_eq_exp_minus_1)
qed

lemma unat_or_mask:
  assumes "unat (a::64 word) < 9223372036854775808"
  shows "unat (a OR MASK) = unat a + 9223372036854775808"
proof -
  have "a AND MASK = 0" using and_mask_iff[of a] assms by simp
  then have "a OR MASK = a + MASK" using word_plus_and_or[of a MASK] by simp
  moreover have "unat (a + MASK) = unat a + unat MASK"
    using assms by (simp add: unat_add_lem[THEN iffD1] MASK_def)
  ultimately show ?thesis by (simp add: MASK_def)
qed

text \<open>The position of a pattern below the sign bit: exponent and fraction together.\<close>

definition body :: "f64 \<Rightarrow> nat" where
  "body a = expo a * 2 ^ 52 + frac a"

lemma unat_body:
  "unat a = (if np_signbit a then 9223372036854775808 else 0) + body a"
  unfolding body_def np_signbit_def bit63_iff expo_def frac_def
  using nat_decomp[OF unat_lt64[of a]] by simp

lemma frac_lt: "frac a < 4503599627370496"
  by (simp add: frac_def)

lemma expo_lt: "expo a < 2048"
  by (simp add: expo_def)

lemma key_plain:
  assumes "np_isfinite a" "\<not> eq_zero a"
  shows "ieee_key1 a = (if np_signbit a then NOT a else a OR MASK)"
  using assms
  by (auto simp: ieee_key1_def np_isfinite_def np_isneginf_def np_isposinf_def
      and_mask_iff np_signbit_def bit63_iff)

lemma unat_key_plain:
  assumes "np_isfinite a" "\<not> eq_zero a"
  shows "unat (ieee_key1 a) =
    (if np_signbit a then 9223372036854775807 - body a else 9223372036854775808 + body a)"
proof (cases "np_signbit a")
  case True
  then show ?thesis
    using unat_body[of a] by (simp add: key_plain[OF assms] unat_not)
next
  case False
  then have "unat a < 9223372036854775808"
    by (simp add: np_signbit_def bit63_iff)
  then show ?thesis
    using unat_body[of a] False by (simp add: key_plain[OF assms] unat_or_mask)
qed

lemma body_finite:
  assumes "np_isfinite a"
  shows "body a < 9218868437227405312"
proof -
  have "expo a \<noteq> 2047" using assms by (auto simp: np_isfinite_def np_isnan_def np_isinf_def)
  then have "expo a \<le> 2046" using expo_lt[of a] by simp
  then show ?thesis using frac_lt[of a] by (simp add: body_def)
qed

lemma body_nonzero:
  assumes "\<not> eq_zero a"
  shows "0 < body a"
  using assms by (auto simp: eq_zero_def body_def)


lemma mag_upper: "frac a < 2 ^ 52 \<Longrightarrow> f64_mag a < 2 ^ 52 * 2 ^ expo a"
proof (cases "expo a = 0")
  case True
  assume "frac a < 2 ^ 52"
  with True show ?thesis by (simp add: f64_mag_def)
next
  case False
  assume f: "frac a < 2 ^ 52"
  from False obtain k where k: "expo a = Suc k" by (cases "expo a") auto
  have "(2 ^ 52 + frac a) * 2 ^ k < (2 ^ 52 + 2 ^ 52) * 2 ^ k"
    using f by (intro mult_strict_right_mono) auto
  then show ?thesis using k by (simp add: f64_mag_def)
qed

lemma mag_lower: "0 < expo a \<Longrightarrow> 2 ^ 52 * 2 ^ (expo a - 1) \<le> f64_mag a"
  by (simp add: f64_mag_def)

lemma mag_less_expo:
  assumes "expo a < expo b"
  shows "f64_mag a < f64_mag b"
proof -
  have "f64_mag a < 2 ^ 52 * 2 ^ expo a"
    using mag_upper[of a] frac_lt[of a] by simp
  also have "(2::nat) ^ 52 * 2 ^ expo a \<le> 2 ^ 52 * 2 ^ (expo b - 1)"
    using assms by (intro mult_left_mono power_increasing) auto
  also have "\<dots> \<le> f64_mag b"
    using assms by (intro mag_lower) auto
  finally show ?thesis .
qed

lemma mag_less_frac:
  assumes "expo a = expo b"
  shows "(f64_mag a < f64_mag b) = (frac a < frac b)"
  using assms by (simp add: f64_mag_def)

lemma body_less_expo:
  assumes "expo a < expo b"
  shows "body a < body b"
proof -
  have "body a < (expo a + 1) * 2 ^ 52"
    using frac_lt[of a] by (simp add: body_def)
  also have "\<dots> \<le> expo b * 2 ^ 52"
    using assms by (intro mult_right_mono) auto
  also have "\<dots> \<le> body b" by (simp add: body_def)
  finally show ?thesis .
qed

lemma mag_less_iff: "(f64_mag a < f64_mag b) = (body a < body b)"
proof -
  consider "expo a < expo b" | "expo a = expo b" | "expo b < expo a"
    by linarith
  then show ?thesis
  proof cases
    case 1
    then show ?thesis using mag_less_expo[of a b] body_less_expo[of a b] by simp
  next
    case 2
    then show ?thesis using mag_less_frac[of a b] by (simp add: body_def)
  next
    case 3
    then show ?thesis
      using mag_less_expo[of b a] body_less_expo[of b a] by auto
  qed
qed

lemma mag_pos: "\<not> eq_zero a \<Longrightarrow> 0 < f64_mag a"
  by (auto simp: eq_zero_def f64_mag_def)

lemma val_less_iff: "(f64_val a < f64_val b) = (f64_scaled a < f64_scaled b)"
  by (simp add: f64_val_def divide_strict_right_mono divide_less_cancel)

theorem ieee_key_order_nonzero:
  assumes "np_isfinite a" "np_isfinite b" "\<not> eq_zero a" "\<not> eq_zero b"
  shows "(f64_val a < f64_val b) = (ieee_key1 a < ieee_key1 b)"
proof -
  have ka: "unat (ieee_key1 a) =
      (if np_signbit a then 9223372036854775807 - body a else 9223372036854775808 + body a)"
    using assms by (intro unat_key_plain) 
  have kb: "unat (ieee_key1 b) =
      (if np_signbit b then 9223372036854775807 - body b else 9223372036854775808 + body b)"
    using assms by (intro unat_key_plain) 
  have ba: "body a < 9218868437227405312" and bb: "body b < 9218868437227405312"
    using assms by (auto intro: body_finite)
  have pa: "0 < f64_mag a" and pb: "0 < f64_mag b"
    using assms by (auto intro: mag_pos)
  have m: "(f64_mag a < f64_mag b) = (body a < body b)"
    "(f64_mag b < f64_mag a) = (body b < body a)"
    by (rule mag_less_iff)+
  show ?thesis
    unfolding val_less_iff word_less_nat_alt ka kb f64_scaled_def
    using ba bb pa pb m by (cases "np_signbit a"; cases "np_signbit b") auto
qed


lemmas f64_class_defs = np_isfinite_def np_isnan_def np_isinf_def np_isposinf_def np_isneginf_def
  eq_zero_def np_signbit_def bit63_iff expo_def frac_def

lemmas key_defs = ieee_key1_def MASK_def SENT_def K_NEGINF_def K_POSINF_def K_NEG0_def K_POS0_def K_NAN_def

theorem ieee_key_sentinels:
  "ieee_key1 0x8000000000000000 = K_NEG0 \<and> ieee_key1 0 = K_POS0 \<and> K_NEG0 < K_POS0 \<and>
   (np_isfinite x \<and> \<not> eq_zero x \<longrightarrow>
      ieee_key1 x < K_NEG0 \<and> ieee_key1 x < K_POS0 \<and> 0 \<le> ieee_key1 x \<and> ieee_key1 x < SENT \<and>
      ieee_key1 x \<notin> {K_NEGINF, K_POSINF, K_NEG0, K_POS0, K_NAN})"
proof -
  have z1: "ieee_key1 0x8000000000000000 = K_NEG0"
    by (simp add: key_defs f64_class_defs)
  have z2: "ieee_key1 0 = K_POS0"
    by (simp add: key_defs f64_class_defs)
  have z3: "K_NEG0 < K_POS0"
    by (simp add: key_defs)
  have fin: "ieee_key1 x < K_NEG0 \<and> ieee_key1 x < K_POS0 \<and> 0 \<le> ieee_key1 x \<and> ieee_key1 x < SENT \<and>
      ieee_key1 x \<notin> {K_NEGINF, K_POSINF, K_NEG0, K_POS0, K_NAN}"
    if f: "np_isfinite x" and nz: "\<not> eq_zero x"
  proof -
    have "unat (ieee_key1 x) < 18442240474082181120"
      using unat_key_plain[OF f nz] body_finite[OF f] by (simp split: if_splits)
    then have lt: "ieee_key1 x < SENT"
      by (simp add: word_less_nat_alt SENT_def)
    have s: "SENT \<le> K_NEGINF" "SENT \<le> K_POSINF" "SENT \<le> K_NEG0" "SENT \<le> K_POS0" "SENT \<le> K_NAN"
      by (simp_all add: key_defs)
    show ?thesis using lt s by auto
  qed
  show ?thesis using z1 z2 z3 fin by blast
qed

theorem ieee_key_sentinels_witness:
  "np_isfinite 0x3FF0000000000000 \<and> \<not> eq_zero 0x3FF0000000000000 \<and>
   ieee_key1 0x3FF0000000000000 < K_NEG0 \<and> ieee_key1 0x3FF0000000000000 < SENT"
  using ieee_key_sentinels [of "0x3FF0000000000000"] by (simp add: f64_class_defs)

theorem ieee_key_order_zero_counterexample:
  "np_isfinite 0 \<and> np_isfinite 0x3FF0000000000000 \<and>
   f64_val 0 < f64_val 0x3FF0000000000000 \<and>
   \<not> ieee_key1 0 < ieee_key1 0x3FF0000000000000"
  by (simp add: key_defs f64_class_defs f64_val_def f64_scaled_def f64_mag_def)

theorem ieee_key_order_nonzero_witness:
  "np_isfinite 0x3FF0000000000000 \<and> np_isfinite 0xC000000000000000 \<and>
   \<not> eq_zero 0x3FF0000000000000 \<and> \<not> eq_zero 0xC000000000000000 \<and>
   f64_val 0xC000000000000000 < f64_val 0x3FF0000000000000 \<and>
   ieee_key1 0xC000000000000000 < ieee_key1 0x3FF0000000000000"
  using ieee_key_order_nonzero [of "0xC000000000000000" "0x3FF0000000000000"]
  by (simp add: f64_class_defs f64_val_def f64_scaled_def f64_mag_def)

end
